theory Spec2Isabelle
  imports Main
begin

section \<open>Data model\<close>

subsection \<open>The schema types\<close>

text \<open>
  The closed enumeration of column types. \<open>finder.go\<close> names its members
  \<open>String, Blob, Bool, Int32, Int64, Double, Timestamp, TUUID, Invalid\<close>.
\<close>

datatype Type = String | Blob | Bool | Int32 | Int64 | Double | Timestamp | TUUID | Invalid

text \<open>
  Errors are values. \<open>Foreign\<close> is an error made by a collaborator that is not part of
  \<open>finder.go\<close>; the other constructors are the errors \<open>finder.go\<close> builds itself:
  \<^item> \<open>Wrap e msg\<close> is \<open>errors.Wrap(e, msg)\<close> / \<open>errors.Wrapf(e, msg)\<close> with a constant message;
  \<^item> \<open>WrapColumn e name\<close> is \<open>errors.Wrapf(e, "column %q", name)\<close>;
  \<^item> \<open>InvalidColumnType name kind\<close> is
    \<open>fmt.Errorf("Column %q has invalid type %q", name, kind)\<close>.
\<close>

datatype error =
    Foreign string
  | Wrap error string
  | WrapColumn error string
  | InvalidColumnType string string

record ColumnDefinition =
  Name :: string
  Type :: Type

text \<open>
  \<open>Table\<close> embeds \<open>EntityDefinition\<close> (fields \<open>Name\<close>, \<open>Key\<close>, \<open>Columns\<close>); the Go code
  reads and writes the embedded fields through the table (\<open>t.Key\<close>, \<open>t.Columns\<close>), so the
  record is flat. The entity's name is \<open>EntityName\<close> here, because \<open>Name\<close> is the column's.
  The key type \<open>*PrimaryKey\<close> is declared outside \<open>finder.go\<close>: it is the type parameter
  \<open>'k\<close>, and \<open>None\<close> is the nil pointer.
\<close>

record 'k Table =
  StructName :: string
  EntityName :: string
  Key :: "'k option"
  Columns :: "ColumnDefinition list"
  ColToField :: "string \<rightharpoonup> string"
  FieldToCol :: "string \<rightharpoonup> string"

subsection \<open>The syntax tree\<close>

text \<open>The token kinds a \<open>BasicLit\<close> can have.\<close>

datatype token = INT | FLOAT | IMAG | CHAR | STRING

record BasicLit =
  Kind :: token
  Value :: string

text \<open>
  Expressions in a field's type position. The translator distinguishes identifiers,
  array types (\<open>Len\<close> is nil for a slice) and selector expressions; the walker looks for
  struct types. Every other shape is \<open>OtherExpr\<close>. An identifier is its name.
\<close>

datatype expr =
    Ident string
  | ArrayType "expr option" expr
  | SelectorExpr expr string
  | StructType "field list"
  | OtherExpr
and field =
    Field (Names: "string list") (FieldType: expr) (Tag: "BasicLit option")

text \<open>
  The nodes \<open>ast.Walk\<close> hands to the visitor. The six container nodes and every other
  node carry the children that \<open>ast.Walk\<close> visits, in its order; a \<open>TypeSpec\<close> carries
  its name and its type expression.
\<close>

datatype node =
    File "node list"
  | Package "node list"
  | BlockStmt "node list"
  | DeclStmt "node list"
  | FuncDecl "node list"
  | GenDecl "node list"
  | TypeSpec string expr
  | OtherNode "node list"

text \<open>What \<open>parser.ParseDir\<close> returns: packages, each with its files, each with its
  top-level declarations. Go iterates the two maps in an unspecified order; the lists are
  in the order of that iteration.\<close>

record ast_File =
  Decls :: "node list"

record ast_Package =
  Files :: "ast_File list"

record 'k EntityRecordingVisitor =
  Entities :: "'k Table list"
  Warnings :: "error list"

subsection \<open>Collaborators\<close>

text \<open>
  \<open>finder.go\<close> calls functions and reads constants that are declared elsewhere: in other
  files of the package (\<open>entityName\<close>, \<open>dosaTagKey\<close>, \<open>NormalizeName\<close>, \<open>parseEntityTag\<close>,
  \<open>parseField\<close>, \<open>translateKeyName\<close>, \<open>EnsureValid\<close>) and in the Go library
  (\<open>reflect.StructTag.Get\<close>, \<open>strings.TrimSpace\<close>, \<open>utf8.DecodeRuneInString\<close>,
  \<open>unicode.IsLower\<close>, \<open>filepath.Match\<close>, \<open>parser.ParseDir\<close>). They are parameters of the
  model, so that every theorem holds whatever they compute.
  \<^item> A Go function returning \<open>(x, error)\<close> returns \<open>error + x\<close> here.
  \<^item> \<open>translateKeyName\<close> mutates the table it is given: it returns the new table.
  \<^item> \<open>EnsureValid\<close> is a check: it returns the error, or \<open>None\<close> for nil.
  \<^item> \<open>filepath.Match\<close> and \<open>parser.ParseDir\<close> can return a value together with an error:
    they return a pair. \<open>ParseDir\<close> receives the file filter as a predicate on file names
    (\<open>finder.go\<close>'s filter reads only \<open>fileInfo.Name()\<close>).
  \<^item> A rune is its code point.
\<close>

type_synonym rune = int

record 'k collaborators =
  entityName :: string
  dosaTagKey :: string
  StructTag_Get :: "string \<Rightarrow> string \<Rightarrow> string"
  TrimSpace :: "string \<Rightarrow> string"
  DecodeRuneInString :: "string \<Rightarrow> rune \<times> nat"
  IsLower :: "rune \<Rightarrow> bool"
  NormalizeName :: "string \<Rightarrow> error + string"
  parseEntityTag :: "string \<Rightarrow> string \<Rightarrow> error + (string \<times> 'k option)"
  parseField :: "Type \<Rightarrow> string \<Rightarrow> string \<Rightarrow> error + ColumnDefinition"
  translateKeyName :: "'k Table \<Rightarrow> 'k Table"
  EnsureValid :: "'k Table \<Rightarrow> error option"
  Match :: "string \<Rightarrow> string \<Rightarrow> bool \<times> error option"
  ParseDir :: "string \<Rightarrow> (string \<Rightarrow> bool) \<Rightarrow> ast_Package list \<times> error option"

section \<open>The program\<close>

subsection \<open>stringToDosaType\<close>

definition stringToDosaType :: "string \<Rightarrow> Type" where
  "stringToDosaType inType =
     (if inType = ''string'' then String
      else if inType = ''[]byte'' then Blob
      else if inType = ''bool'' then Bool
      else if inType = ''int32'' then Int32
      else if inType = ''int64'' then Int64
      else if inType = ''float64'' then Double
      else if inType = ''time.Time'' then Timestamp
      else if inType = ''UUID'' then TUUID
      else Invalid)"

subsection \<open>Tags\<close>

text \<open>\<open>strings.Trim(s, "`")\<close>: all leading and all trailing backquotes are removed.\<close>

definition backquote :: char where
  "backquote = CHR 0x60"

definition Trim_backquote :: "string \<Rightarrow> string" where
  "Trim_backquote s =
     rev (dropWhile (\<lambda>c. c = backquote) (rev (dropWhile (\<lambda>c. c = backquote) s)))"

text \<open>\<open>reflect.StructTag(strings.Trim(lit.Value, "`")).Get(dosaTagKey)\<close>\<close>

definition entityTag_Get :: "'k collaborators \<Rightarrow> BasicLit \<Rightarrow> string" where
  "entityTag_Get env lit = StructTag_Get env (Trim_backquote (Value lit)) (dosaTagKey env)"

subsection \<open>isDosaEntity\<close>

definition isDosaEntity :: "'k collaborators \<Rightarrow> field list \<Rightarrow> bool" where
  "isDosaEntity env fieldList =
     (case fieldList of
        [] \<Rightarrow> False
      | candidateEntityField # _ \<Rightarrow>
          (case FieldType candidateEntityField of
             Ident identifier \<Rightarrow> identifier = entityName env
           | _ \<Rightarrow> True) \<and>
          (case Tag candidateEntityField of
             None \<Rightarrow> False
           | Some lit \<Rightarrow> Kind lit = STRING \<and> entityTag_Get env lit \<noteq> ''''))"

subsection \<open>tableFromStructType\<close>

text \<open>The tag of a field as the loop computes it (\<open>dosaTag\<close>).\<close>

definition dosaTag :: "'k collaborators \<Rightarrow> field \<Rightarrow> string" where
  "dosaTag env field =
     (case Tag field of
        None \<Rightarrow> ''''
      | Some lit \<Rightarrow> TrimSpace env (entityTag_Get env lit))"

text \<open>The type switch that computes \<open>kind\<close>; the zero value of \<open>kind\<close> is the empty string.\<close>

definition kind :: "field \<Rightarrow> string" where
  "kind field =
     (case FieldType field of
        Ident typeName \<Rightarrow> typeName
      | ArrayType _ elt \<Rightarrow>
          (case elt of
             Ident typeName \<Rightarrow> if typeName = ''byte'' then ''[]byte'' else ''''
           | _ \<Rightarrow> '''')
      | SelectorExpr x _ \<Rightarrow>
          (case x of
             Ident typeName \<Rightarrow> if typeName = ''time'' then ''time.Time'' else ''''
           | _ \<Rightarrow> '''')
      | _ \<Rightarrow> '''')"

text \<open>
  The inner loop, over the names a field binds. An error leaves the whole function: the
  table built so far is dropped.
\<close>

fun namesLoop ::
  "'k collaborators \<Rightarrow> string \<Rightarrow> string \<Rightarrow> 'k Table \<Rightarrow> string list \<Rightarrow> error + 'k Table" where
  "namesLoop env knd tag t [] = Inr t"
| "namesLoop env knd tag t (name # names) =
     (let firstRune = fst (DecodeRuneInString env name) in
      if IsLower env firstRune then namesLoop env knd tag t names
      else
        let typ = stringToDosaType knd in
        if typ = Invalid then Inl (InvalidColumnType name knd)
        else
          (case parseField env typ name tag of
             Inl err \<Rightarrow> Inl (WrapColumn err name)
           | Inr cd \<Rightarrow>
               namesLoop env knd tag
                 (t\<lparr>Columns := Columns t @ [cd],
                    ColToField := (ColToField t)(Name cd \<mapsto> name),
                    FieldToCol := (FieldToCol t)(name \<mapsto> Name cd)\<rparr>)
                 names))"

text \<open>The outer loop, over the fields of the struct.\<close>

fun fieldsLoop ::
  "'k collaborators \<Rightarrow> string \<Rightarrow> 'k Table \<Rightarrow> field list \<Rightarrow> error + 'k Table" where
  "fieldsLoop env structName t [] = Inr t"
| "fieldsLoop env structName t (field # fieldList) =
     (let tag = dosaTag env field in
      if tag = ''-'' then fieldsLoop env structName t fieldList
      else if kind field = entityName env then
        (case parseEntityTag env structName tag of
           Inl err \<Rightarrow> Inl err
         | Inr (n, k) \<Rightarrow> fieldsLoop env structName (t\<lparr>EntityName := n, Key := k\<rparr>) fieldList)
      else
        (case namesLoop env (kind field) tag t (Names field) of
           Inl err \<Rightarrow> Inl err
         | Inr t' \<Rightarrow> fieldsLoop env structName t' fieldList))"

definition newTable :: "string \<Rightarrow> string \<Rightarrow> 'k Table" where
  "newTable structName normalizedName =
     \<lparr>StructName = structName, EntityName = normalizedName, Key = None, Columns = [],
      ColToField = Map.empty, FieldToCol = Map.empty\<rparr>"

definition tableFromStructType ::
  "'k collaborators \<Rightarrow> string \<Rightarrow> field list \<Rightarrow> error + 'k Table" where
  "tableFromStructType env structName fieldList =
     (case NormalizeName env structName of
        Inl err \<Rightarrow> Inl (Wrap err ''struct name is invalid'')
      | Inr normalizedName \<Rightarrow>
          (case fieldsLoop env structName (newTable structName normalizedName) fieldList of
             Inl err \<Rightarrow> Inl err
           | Inr t \<Rightarrow>
               let t' = translateKeyName env t in
               (case EnsureValid env t' of
                  Some err \<Rightarrow> Inl (Wrap err ''failed to parse dosa object'')
                | None \<Rightarrow> Inr t')))"

subsection \<open>The visitor\<close>

text \<open>
  \<open>Visit\<close> returns the visitor itself to let \<open>ast.Walk\<close> descend into the node, and nil to
  stop it: here it returns the visitor's new state and whether the walk descends.
\<close>

definition Visit ::
  "'k collaborators \<Rightarrow> 'k EntityRecordingVisitor \<Rightarrow> node \<Rightarrow> 'k EntityRecordingVisitor \<times> bool" where
  "Visit env f n =
     (case n of
        File _ \<Rightarrow> (f, True)
      | Package _ \<Rightarrow> (f, True)
      | BlockStmt _ \<Rightarrow> (f, True)
      | DeclStmt _ \<Rightarrow> (f, True)
      | FuncDecl _ \<Rightarrow> (f, True)
      | GenDecl _ \<Rightarrow> (f, True)
      | TypeSpec name typ \<Rightarrow>
          (case typ of
             StructType structType \<Rightarrow>
               if isDosaEntity env structType then
                 (case tableFromStructType env name structType of
                    Inr table \<Rightarrow> (f\<lparr>Entities := Entities f @ [table]\<rparr>, False)
                  | Inl err \<Rightarrow> (f\<lparr>Warnings := Warnings f @ [err]\<rparr>, False))
               else (f, False)
           | _ \<Rightarrow> (f, False))
      | OtherNode _ \<Rightarrow> (f, False))"

text \<open>The children of a node, as \<open>ast.Walk\<close> enumerates them.\<close>

fun children :: "node \<Rightarrow> node list" where
  "children (File ns) = ns"
| "children (Package ns) = ns"
| "children (BlockStmt ns) = ns"
| "children (DeclStmt ns) = ns"
| "children (FuncDecl ns) = ns"
| "children (GenDecl ns) = ns"
| "children (TypeSpec _ _) = []"
| "children (OtherNode ns) = ns"

text \<open>
  \<open>ast.Walk(v, node)\<close>: call \<open>v.Visit(node)\<close>; when it returns nil, stop; otherwise walk the
  children in order with the visitor it returned. (The closing \<open>v.Visit(nil)\<close> matches no
  case of the type switch and changes nothing.)
\<close>

function Walk ::
  "'k collaborators \<Rightarrow> 'k EntityRecordingVisitor \<Rightarrow> node \<Rightarrow> 'k EntityRecordingVisitor" where
  "Walk env f n =
     (case Visit env f n of
        (f', True) \<Rightarrow> fold (\<lambda>c s. Walk env s c) (children n) f'
      | (f', False) \<Rightarrow> f')"
  by pat_completeness auto
termination
proof (relation "measure (\<lambda>(env, f, n). size n)")
  show "wf (measure (\<lambda>(env :: 'k collaborators, f :: 'k EntityRecordingVisitor, n). size n))"
    by simp
next
  fix env :: "'k collaborators" and f s :: "'k EntityRecordingVisitor" and n c :: node
  assume "c \<in> set (children n)"
  then have "size c < size n"
    by (cases n) (auto simp: less_Suc_eq_le dest: size_list_estimation')
  then show "((env, s, c), (env, f, n)) \<in> measure (\<lambda>(env, f, n). size n)"
    by simp
qed

declare Walk.simps [simp del]

subsection \<open>FindEntities\<close>

text \<open>The file filter handed to \<open>parser.ParseDir\<close>.\<close>

definition fileFilter :: "'k collaborators \<Rightarrow> string \<Rightarrow> string \<Rightarrow> bool" where
  "fileFilter env excludes fileName =
     (if excludes = '''' then True
      else let matched = fst (Match env excludes fileName) in \<not> matched)"

definition walkPackages ::
  "'k collaborators \<Rightarrow> 'k EntityRecordingVisitor \<Rightarrow> ast_Package list \<Rightarrow> 'k EntityRecordingVisitor" where
  "walkPackages env erv packages =
     fold (\<lambda>pkg. fold (\<lambda>file. fold (\<lambda>decl f. Walk env f decl) (Decls file)) (Files pkg))
       packages erv"

text \<open>The result is \<open>(entities, warnings, fatal error)\<close>; a nil slice is the empty list.\<close>

definition FindEntities ::
  "'k collaborators \<Rightarrow> string \<Rightarrow> string \<Rightarrow> 'k Table list \<times> error list \<times> error option" where
  "FindEntities env path excludes =
     (case ParseDir env path (fileFilter env excludes) of
        (packages, Some err) \<Rightarrow> ([], [], Some err)
      | (packages, None) \<Rightarrow>
          let erv = walkPackages env \<lparr>Entities = [], Warnings = []\<rparr> packages
          in (Entities erv, Warnings erv, None))"

subsection \<open>The fields that become columns\<close>

text \<open>
  The specification speaks of the non-ignored, exported fields of a record. These are, in
  the order of declaration, the names not starting with a lower-case rune that are bound
  by the fields that are neither ignored nor the marker field.
\<close>

definition exportedNames :: "'k collaborators \<Rightarrow> field \<Rightarrow> string list" where
  "exportedNames env field =
     filter (\<lambda>name. \<not> IsLower env (fst (DecodeRuneInString env name))) (Names field)"

definition columnFields :: "'k collaborators \<Rightarrow> field list \<Rightarrow> string list" where
  "columnFields env fieldList =
     concat (map (exportedNames env)
       (filter (\<lambda>field. dosaTag env field \<noteq> ''-'' \<and> kind field \<noteq> entityName env) fieldList))"

subsection \<open>The candidates of a scan\<close>

text \<open>
  The specification describes the scan by what it visits: every type declaration of a
  record shape that is reachable through files, packages, blocks, declaration statements,
  function declarations and general declarations, and that the heuristic accepts, is a
  candidate. \<open>candidates\<close> lists the candidates below a node, and \<open>scanCandidates\<close> those of
  the parsed packages, in the order of the traversal.
\<close>

fun candidates :: "'k collaborators \<Rightarrow> node \<Rightarrow> (string \<times> field list) list" where
  "candidates env (File ns) = concat (map (candidates env) ns)"
| "candidates env (Package ns) = concat (map (candidates env) ns)"
| "candidates env (BlockStmt ns) = concat (map (candidates env) ns)"
| "candidates env (DeclStmt ns) = concat (map (candidates env) ns)"
| "candidates env (FuncDecl ns) = concat (map (candidates env) ns)"
| "candidates env (GenDecl ns) = concat (map (candidates env) ns)"
| "candidates env (TypeSpec name typ) =
     (case typ of
        StructType structType \<Rightarrow> if isDosaEntity env structType then [(name, structType)] else []
      | _ \<Rightarrow> [])"
| "candidates env (OtherNode ns) = []"

definition fileCandidates :: "'k collaborators \<Rightarrow> ast_File \<Rightarrow> (string \<times> field list) list" where
  "fileCandidates env file = concat (map (candidates env) (Decls file))"

definition packageCandidates :: "'k collaborators \<Rightarrow> ast_Package \<Rightarrow> (string \<times> field list) list" where
  "packageCandidates env pkg = concat (map (fileCandidates env) (Files pkg))"

definition scanCandidates :: "'k collaborators \<Rightarrow> ast_Package list \<Rightarrow> (string \<times> field list) list" where
  "scanCandidates env packages = concat (map (packageCandidates env) packages)"

text \<open>The tables, and the errors, that the translator returns for a list of candidates.\<close>

fun entitiesOf :: "'k collaborators \<Rightarrow> (string \<times> field list) list \<Rightarrow> 'k Table list" where
  "entitiesOf env [] = []"
| "entitiesOf env ((name, structType) # cs) =
     (case tableFromStructType env name structType of
        Inr table \<Rightarrow> table # entitiesOf env cs
      | Inl err \<Rightarrow> entitiesOf env cs)"

fun warningsOf :: "'k collaborators \<Rightarrow> (string \<times> field list) list \<Rightarrow> error list" where
  "warningsOf env [] = []"
| "warningsOf env ((name, structType) # cs) =
     (case tableFromStructType env name structType of
        Inr table \<Rightarrow> warningsOf env cs
      | Inl err \<Rightarrow> err # warningsOf env cs)"

section \<open>A sample instantiation of the collaborators\<close>

text \<open>
  The theorems below hold for every choice of the collaborators. To run the program on
  concrete declarations, this section fixes one choice. It is deliberately small: the
  library functions are restricted to ASCII input and to tags without escape sequences,
  and the package's own helpers implement only the part of their contract that the
  specification describes. The key of an entity is here the list of its key fields.
\<close>

subsection \<open>Library functions\<close>

text \<open>
  \<open>reflect.StructTag.Get\<close> on the conventional format: \<open>name:"value"\<close> pairs separated by
  spaces. A name is made of characters above the space other than colon, double quote and
  DEL. The scan stops, with the empty string, at the first malformed pair. A character
  after a backslash is taken as it is.
\<close>

datatype scan =
    SkipSpace
  | InName string
  | AfterColon string
  | InValue string string
  | Escaped string string

definition nameChar :: "char \<Rightarrow> bool" where
  "nameChar c \<longleftrightarrow>
     (of_char c :: nat) > 0x20 \<and> c \<noteq> CHR '':'' \<and> c \<noteq> CHR 0x22 \<and> c \<noteq> CHR 0x7F"

fun lookupTag :: "scan \<Rightarrow> string \<Rightarrow> string \<Rightarrow> string" where
  "lookupTag st key [] = []"
| "lookupTag SkipSpace key (c # cs) =
     (if c = CHR '' '' then lookupTag SkipSpace key cs
      else if nameChar c then lookupTag (InName [c]) key cs
      else [])"
| "lookupTag (InName n) key (c # cs) =
     (if nameChar c then lookupTag (InName (n @ [c])) key cs
      else if c = CHR '':'' then lookupTag (AfterColon n) key cs
      else [])"
| "lookupTag (AfterColon n) key (c # cs) =
     (if c = CHR 0x22 then lookupTag (InValue n []) key cs else [])"
| "lookupTag (InValue n v) key (c # cs) =
     (if c = CHR 0x22 then (if key = n then v else lookupTag SkipSpace key cs)
      else if c = CHR 0x5C then lookupTag (Escaped n v) key cs
      else lookupTag (InValue n (v @ [c])) key cs)"
| "lookupTag (Escaped n v) key (c # cs) = lookupTag (InValue n (v @ [c])) key cs"

definition sample_StructTag_Get :: "string \<Rightarrow> string \<Rightarrow> string" where
  "sample_StructTag_Get tag key = lookupTag SkipSpace key tag"

text \<open>\<open>strings.TrimSpace\<close> for ASCII white space.\<close>

definition asciiSpace :: "char \<Rightarrow> bool" where
  "asciiSpace c \<longleftrightarrow> c \<in> {CHR '' '', CHR 0x09, CHR 0x0A, CHR 0x0B, CHR 0x0C, CHR 0x0D}"

definition sample_TrimSpace :: "string \<Rightarrow> string" where
  "sample_TrimSpace s = rev (dropWhile asciiSpace (rev (dropWhile asciiSpace s)))"

text \<open>
  \<open>utf8.DecodeRuneInString\<close> for a string that starts with an ASCII character; the empty
  string decodes to \<open>(RuneError, 0)\<close> and any other byte is reported as \<open>(RuneError, 1)\<close>.
  \<open>unicode.IsLower\<close> on ASCII.
\<close>

definition RuneError :: rune where
  "RuneError = 0xFFFD"

definition sample_DecodeRuneInString :: "string \<Rightarrow> rune \<times> nat" where
  "sample_DecodeRuneInString s =
     (case s of
        [] \<Rightarrow> (RuneError, 0)
      | c # _ \<Rightarrow> if (of_char c :: nat) < 0x80 then (of_char c, 1) else (RuneError, 1))"

definition sample_IsLower :: "rune \<Rightarrow> bool" where
  "sample_IsLower r \<longleftrightarrow> 0x61 \<le> r \<and> r \<le> 0x7A"

text \<open>
  \<open>filepath.Match\<close> for patterns that are a literal name or a star followed by a literal
  suffix. A pattern with an opening bracket is reported as malformed, with no match.
\<close>

definition ErrBadPattern :: error where
  "ErrBadPattern = Foreign ''syntax error in pattern''"

definition sample_Match :: "string \<Rightarrow> string \<Rightarrow> bool \<times> error option" where
  "sample_Match pattern name =
     (if CHR ''['' \<in> set pattern then (False, Some ErrBadPattern)
      else
        (case pattern of
           [] \<Rightarrow> (name = [], None)
         | c # suffix \<Rightarrow>
             if c = CHR ''*'' then (suffix = drop (length name - length suffix) name, None)
             else (pattern = name, None)))"

subsection \<open>Helpers of the package\<close>

definition asciiLower :: "char \<Rightarrow> char" where
  "asciiLower c =
     (case map_of (zip ''ABCDEFGHIJKLMNOPQRSTUVWXYZ'' ''abcdefghijklmnopqrstuvwxyz'') c of
        None \<Rightarrow> c
      | Some l \<Rightarrow> l)"

definition nameCharOk :: "char \<Rightarrow> bool" where
  "nameCharOk c \<longleftrightarrow>
     (let n = (of_char c :: nat) in
      (0x61 \<le> n \<and> n \<le> 0x7A) \<or> (0x30 \<le> n \<and> n \<le> 0x39) \<or> c = CHR ''_'')"

text \<open>
  Modelled from the spec: \<open>NormalizeName\<close> is not in \<open>finder.go\<close>. The specification says
  that it maps a declared name to a normalized schema name or fails for an invalid name,
  and that the field \<open>Name\<close> gets the column \<open>name\<close>. Here: lower the ASCII letters, and
  accept non-empty names of lower-case letters, digits and underscores.
\<close>

definition sample_NormalizeName :: "string \<Rightarrow> error + string" where
  "sample_NormalizeName name =
     (let lowered = map asciiLower name in
      if lowered \<noteq> [] \<and> list_all nameCharOk lowered then Inr lowered
      else Inl (Foreign ''invalid name''))"

fun stripPrefix :: "string \<Rightarrow> string \<Rightarrow> string option" where
  "stripPrefix [] s = Some s"
| "stripPrefix (p # ps) [] = None"
| "stripPrefix (p # ps) (c # cs) = (if p = c then stripPrefix ps cs else None)"

text \<open>
  Modelled from the spec: \<open>parseEntityTag\<close> is not in \<open>finder.go\<close>. The specification says
  that it parses the marker field's tag into a (possibly overridden) entity name and a key
  structure. Here the tag is \<open>primaryKey=F\<close>, optionally preceded by \<open>name=N, \<close>; without
  an override the entity's name is the normalized struct name.
\<close>

definition sample_parseEntityTag :: "string \<Rightarrow> string \<Rightarrow> error + (string \<times> string list option)" where
  "sample_parseEntityTag structName tag =
     (case stripPrefix ''name='' tag of
        Some r \<Rightarrow>
          (let n = takeWhile (\<lambda>c. c \<noteq> CHR '','') r in
           case stripPrefix '', primaryKey='' (dropWhile (\<lambda>c. c \<noteq> CHR '','') r) of
             Some k \<Rightarrow>
               if n = [] \<or> k = [] then Inl (Foreign ''invalid entity tag'')
               else Inr (n, Some [k])
           | None \<Rightarrow> Inl (Foreign ''invalid entity tag''))
      | None \<Rightarrow>
          (case stripPrefix ''primaryKey='' tag of
             Some k \<Rightarrow>
               if k = [] then Inl (Foreign ''invalid entity tag'')
               else
                 (case sample_NormalizeName structName of
                    Inl err \<Rightarrow> Inl err
                  | Inr n \<Rightarrow> Inr (n, Some [k]))
           | None \<Rightarrow> Inl (Foreign ''invalid entity tag'')))"

text \<open>
  Modelled from the spec: \<open>parseField\<close> is not in \<open>finder.go\<close>. The specification says that
  it parses an ordinary field's tag into a column definition of the given type, whose
  name is the normalized field name unless the tag overrides it. Here the tag is empty or
  \<open>name=C\<close>.
\<close>

definition sample_parseField :: "Type \<Rightarrow> string \<Rightarrow> string \<Rightarrow> error + ColumnDefinition" where
  "sample_parseField typ name tag =
     (if tag = [] then
        (case sample_NormalizeName name of
           Inl err \<Rightarrow> Inl err
         | Inr n \<Rightarrow> Inr \<lparr>Name = n, Type = typ\<rparr>)
      else
        (case stripPrefix ''name='' tag of
           Some c \<Rightarrow>
             if c = [] then Inl (Foreign ''invalid name tag'')
             else Inr \<lparr>Name = c, Type = typ\<rparr>
         | None \<Rightarrow> Inl (Foreign ''invalid field tag'')))"

text \<open>
  Modelled from the spec: \<open>translateKeyName\<close> is not in \<open>finder.go\<close>. The specification says
  that it resolves the key's field references against the complete column list. Here each
  key field is replaced by its column, read from \<open>FieldToCol\<close> (a missing entry reads as
  the empty string, as a Go map does).
\<close>

definition sample_translateKeyName :: "string list Table \<Rightarrow> string list Table" where
  "sample_translateKeyName t =
     t\<lparr>Key := map_option (map (\<lambda>k. case FieldToCol t k of Some c \<Rightarrow> c | None \<Rightarrow> [])) (Key t)\<rparr>"

text \<open>
  Modelled from the spec: \<open>EnsureValid\<close> is not in \<open>finder.go\<close>. The specification says that
  it is the final validity check of the key and column structure. Here: there is a key,
  every key column is a column, and no column name occurs twice.
\<close>

definition sample_EnsureValid :: "string list Table \<Rightarrow> error option" where
  "sample_EnsureValid t =
     (case Key t of
        None \<Rightarrow> Some (Foreign ''missing primary key'')
      | Some ks \<Rightarrow>
          if ks = [] \<or> \<not> list_all (\<lambda>k. k \<in> set (map Name (Columns t))) ks
          then Some (Foreign ''primary key is not a column'')
          else if \<not> distinct (map Name (Columns t)) then Some (Foreign ''duplicated column'')
          else None)"

text \<open>
  \<open>parser.ParseDir\<close> on a sample file system: the directory \<open>models\<close> holds the packages
  of \<open>sampleDir\<close>, each with its files, and any other path fails to parse. A package whose
  files are all excluded is not returned.
\<close>

definition sample_ParseDir ::
  "(string \<times> ast_File) list list \<Rightarrow> string \<Rightarrow> (string \<Rightarrow> bool) \<Rightarrow>
   ast_Package list \<times> error option" where
  "sample_ParseDir dir path flt =
     (if path = ''models''
      then (filter (\<lambda>pkg. Files pkg \<noteq> [])
              (map (\<lambda>files. \<lparr>Files = map snd (filter (\<lambda>(name, file). flt name) files)\<rparr>) dir),
            None)
      else ([], Some (Foreign ''expected declaration'')))"

subsection \<open>Sample declarations\<close>

text \<open>A raw string literal as the parser stores it, and a tag literal \<open>`dosa:"v"`\<close>.\<close>

definition rawString :: "string \<Rightarrow> BasicLit" where
  "rawString s = \<lparr>Kind = STRING, Value = backquote # s @ [backquote]\<rparr>"

definition dosaLit :: "string \<Rightarrow> BasicLit" where
  "dosaLit v = rawString (''dosa:'' @ CHR 0x22 # v @ [CHR 0x22])"

text \<open>
  \<^verbatim>\<open>type User struct {
    Entity `dosa:"primaryKey=Name"`
    Name   string
    secret int64
    Cache  []byte `dosa:"-"`
  }\<close>
\<close>

definition userMarker :: field where
  "userMarker = Field [] (Ident ''Entity'') (Some (dosaLit ''primaryKey=Name''))"

definition userName :: field where
  "userName = Field [''Name''] (Ident ''string'') None"

definition userSecret :: field where
  "userSecret = Field [''secret''] (Ident ''int64'') None"

definition userCache :: field where
  "userCache = Field [''Cache''] (ArrayType None (Ident ''byte'')) (Some (dosaLit ''-''))"

definition userStruct :: "field list" where
  "userStruct = [userMarker, userName, userSecret, userCache]"

definition userTable :: "string list Table" where
  "userTable =
     \<lparr>StructName = ''User'', EntityName = ''user'', Key = Some [''name''],
      Columns = [\<lparr>Name = ''name'', Type = String\<rparr>],
      ColToField = [''name'' \<mapsto> ''Name''], FieldToCol = [''Name'' \<mapsto> ''name'']\<rparr>"

text \<open>
  \<^verbatim>\<open>type Account struct {
    Entity  `dosa:"primaryKey=ID"`
    ID      int64
    Address Address
  }\<close>
\<close>

definition accountStruct :: "field list" where
  "accountStruct =
     [Field [] (Ident ''Entity'') (Some (dosaLit ''primaryKey=ID'')),
      Field [''ID''] (Ident ''int64'') None,
      Field [''Address''] (Ident ''Address'') None]"

text \<open>
  \<^verbatim>\<open>type Blobs struct {
    Data []byte `dosa:"name=data"`
  }\<close>
\<close>

definition blobsStruct :: "field list" where
  "blobsStruct = [Field [''Data''] (ArrayType None (Ident ''byte'')) (Some (dosaLit ''name=data''))]"

text \<open>
  \<^verbatim>\<open>type Point struct {
    X, Y float64
  }\<close>
\<close>

definition pointStruct :: "field list" where
  "pointStruct = [Field [''X'', ''Y''] (Ident ''float64'') None]"

text \<open>
  \<^verbatim>\<open>type Twice struct {
    Entity `dosa:"primaryKey=A"`
    A      string `dosa:"name=x"`
    A      string `dosa:"name=y"`
  }\<close>
  The parser accepts the repeated field name; it is the type checker that would not.
\<close>

definition twiceStruct :: "field list" where
  "twiceStruct =
     [Field [] (Ident ''Entity'') (Some (dosaLit ''primaryKey=A'')),
      Field [''A''] (Ident ''string'') (Some (dosaLit ''name=x'')),
      Field [''A''] (Ident ''string'') (Some (dosaLit ''name=y''))]"

definition twiceTable :: "string list Table" where
  "twiceTable =
     \<lparr>StructName = ''Twice'', EntityName = ''twice'', Key = Some [''y''],
      Columns = [\<lparr>Name = ''x'', Type = String\<rparr>, \<lparr>Name = ''y'', Type = String\<rparr>],
      ColToField = [''x'' \<mapsto> ''A'', ''y'' \<mapsto> ''A''],
      FieldToCol = [''A'' \<mapsto> ''x'', ''A'' \<mapsto> ''y'']\<rparr>"

text \<open>
  \<^verbatim>\<open>type Person struct {
    Entity `dosa:"primaryKey=Name"`
    Name   string
    ID     int64
    Entity `dosa:"name=people, primaryKey=ID"`
  }\<close>
\<close>

definition personFirstMarker :: field where
  "personFirstMarker = Field [] (Ident ''Entity'') (Some (dosaLit ''primaryKey=Name''))"

definition personColumns :: "field list" where
  "personColumns = [Field [''Name''] (Ident ''string'') None, Field [''ID''] (Ident ''int64'') None]"

definition personLastMarker :: field where
  "personLastMarker = Field [] (Ident ''Entity'') (Some (dosaLit ''name=people, primaryKey=ID''))"

definition personTable :: "string list Table" where
  "personTable =
     \<lparr>StructName = ''Person'', EntityName = ''people'', Key = Some [''id''],
      Columns = [\<lparr>Name = ''name'', Type = String\<rparr>, \<lparr>Name = ''id'', Type = Int64\<rparr>],
      ColToField = [''name'' \<mapsto> ''Name'', ''id'' \<mapsto> ''ID''],
      FieldToCol = [''Name'' \<mapsto> ''name'', ''ID'' \<mapsto> ''id'']\<rparr>"

text \<open>
  \<^verbatim>\<open>type Member struct {
    Entity `dosa:"primaryKey=Name"`
    Name   string
    secret int64
    Cache  []byte `dosa:"-"`
    Address
  }\<close>
  The last field is embedded: it binds no name.
\<close>

definition memberStruct :: "field list" where
  "memberStruct = userStruct @ [Field [] (Ident ''Address'') None]"

text \<open>
  The sample directory has two packages. The first has two files: \<open>account.go\<close> with an
  import and the declaration of \<open>Account\<close>, and \<open>user.go\<close> with \<open>Point\<close> and \<open>User\<close> in
  one general declaration. The second has \<open>account_test.go\<close>, which declares \<open>Blobs\<close>
  inside a function body.
\<close>

definition accountFile :: ast_File where
  "accountFile =
     \<lparr>Decls = [GenDecl [OtherNode []], GenDecl [TypeSpec ''Account'' (StructType accountStruct)]]\<rparr>"

definition userFile :: ast_File where
  "userFile =
     \<lparr>Decls =
        [GenDecl [TypeSpec ''Point'' (StructType pointStruct),
                  TypeSpec ''User'' (StructType userStruct)]]\<rparr>"

definition testFile :: ast_File where
  "testFile =
     \<lparr>Decls =
        [FuncDecl [OtherNode [],
           BlockStmt [DeclStmt [GenDecl [TypeSpec ''Blobs'' (StructType blobsStruct)]]]]]\<rparr>"

definition sampleDir :: "(string \<times> ast_File) list list" where
  "sampleDir =
     [[(''account.go'', accountFile), (''user.go'', userFile)],
      [(''account_test.go'', testFile)]]"

definition sample_env :: "string list collaborators" where
  "sample_env =
     \<lparr>entityName = ''Entity'',
      dosaTagKey = ''dosa'',
      StructTag_Get = sample_StructTag_Get,
      TrimSpace = sample_TrimSpace,
      DecodeRuneInString = sample_DecodeRuneInString,
      IsLower = sample_IsLower,
      NormalizeName = sample_NormalizeName,
      parseEntityTag = sample_parseEntityTag,
      parseField = sample_parseField,
      translateKeyName = sample_translateKeyName,
      EnsureValid = sample_EnsureValid,
      Match = sample_Match,
      ParseDir = sample_ParseDir sampleDir\<rparr>"

section \<open>Properties\<close>

subsection \<open>The type mapper\<close>

text \<open>
  C4. \<open>stringToDosaType\<close> is a total function (as every function of the logic is) that
  compares its argument with eight labels, exactly and with regard to case: each of the
  eight labels is mapped to its member of the enumeration, every other string is mapped
  to \<open>Invalid\<close>, and the enumeration has the nine members listed and no other.
\<close>

theorem stringToDosaType_exact:
  "stringToDosaType ''string'' = String \<and>
   stringToDosaType ''[]byte'' = Blob \<and>
   stringToDosaType ''bool'' = Bool \<and>
   stringToDosaType ''int32'' = Int32 \<and>
   stringToDosaType ''int64'' = Int64 \<and>
   stringToDosaType ''float64'' = Double \<and>
   stringToDosaType ''time.Time'' = Timestamp \<and>
   stringToDosaType ''UUID'' = TUUID \<and>
   (inType \<notin> {''string'', ''[]byte'', ''bool'', ''int32'', ''int64'', ''float64'',
                 ''time.Time'', ''UUID''} \<longrightarrow> stringToDosaType inType = Invalid) \<and>
   (UNIV :: Type set) = {String, Blob, Bool, Int32, Int64, Double, Timestamp, TUUID, Invalid}"
proof -
  have known: "stringToDosaType ''string'' = String" "stringToDosaType ''[]byte'' = Blob"
    "stringToDosaType ''bool'' = Bool" "stringToDosaType ''int32'' = Int32"
    "stringToDosaType ''int64'' = Int64" "stringToDosaType ''float64'' = Double"
    "stringToDosaType ''time.Time'' = Timestamp" "stringToDosaType ''UUID'' = TUUID"
    by (simp_all add: stringToDosaType_def)
  have other: "inType \<notin> {''string'', ''[]byte'', ''bool'', ''int32'', ''int64'', ''float64'',
                 ''time.Time'', ''UUID''} \<longrightarrow> stringToDosaType inType = Invalid"
    by (simp add: stringToDosaType_def)
  have closed: "(UNIV :: Type set) =
      {String, Blob, Bool, Int32, Int64, Double, Timestamp, TUUID, Invalid}"
  proof (rule set_eqI)
    fix ty :: Type
    show "ty \<in> UNIV \<longleftrightarrow>
        ty \<in> {String, Blob, Bool, Int32, Int64, Double, Timestamp, TUUID, Invalid}"
      by (cases ty) simp_all
  qed
  from known other closed show ?thesis by blast
qed

text \<open>The comparison regards case: \<open>String\<close> is not the label \<open>string\<close>.\<close>

theorem stringToDosaType_exact_witness:
  "''String'' \<notin> {''string'', ''[]byte'', ''bool'', ''int32'', ''int64'', ''float64'',
                 ''time.Time'', ''UUID''} \<and> stringToDosaType ''String'' = Invalid"
  using stringToDosaType_exact [of "''String''"] by simp

subsection \<open>The scan\<close>

text \<open>
  C9. When the parser reports an error, \<open>FindEntities\<close> returns that error as the fatal
  error, with no entity and no warning.
\<close>

theorem FindEntities_parse_error:
  "snd (ParseDir env path (fileFilter env excludes)) = Some err \<Longrightarrow>
   FindEntities env path excludes = ([], [], Some err)"
  by (cases "ParseDir env path (fileFilter env excludes)") (simp add: FindEntities_def)

theorem FindEntities_parse_error_witness:
  "snd (ParseDir sample_env ''broken'' (fileFilter sample_env ''*_test.go'')) =
     Some (Foreign ''expected declaration'') \<and>
   FindEntities sample_env ''broken'' ''*_test.go'' = ([], [], Some (Foreign ''expected declaration''))"
proof -
  have h: "snd (ParseDir sample_env ''broken'' (fileFilter sample_env ''*_test.go'')) =
      Some (Foreign ''expected declaration'')"
    by (simp add: sample_env_def sample_ParseDir_def)
  from h FindEntities_parse_error [OF h] show ?thesis by simp
qed

text \<open>
  C10. The error of \<open>filepath.Match\<close> is dropped. When \<open>Match\<close> returns an error for a file
  name (and with it, as the library does, no match), the filter includes the file. The
  filter is the same as with a \<open>Match\<close> that reports the same matches and never an error.
  The fatal error of \<open>FindEntities\<close> is the parser's error and nothing else, so no fatal
  error comes from the exclusion pattern.
\<close>

theorem fileFilter_drops_Match_error:
  "(snd (Match env excludes fileName) = Some err \<and> \<not> fst (Match env excludes fileName) \<longrightarrow>
      fileFilter env excludes fileName) \<and>
   fileFilter (env\<lparr>Match := \<lambda>pattern name. (fst (Match env pattern name), None)\<rparr>) excludes fileName =
     fileFilter env excludes fileName \<and>
   snd (snd (FindEntities env path excludes)) = snd (ParseDir env path (fileFilter env excludes))"
  by (cases "ParseDir env path (fileFilter env excludes)")
    (simp add: fileFilter_def FindEntities_def Let_def split: option.splits)

theorem fileFilter_drops_Match_error_witness:
  "snd (Match sample_env ''[_test.go'' ''account_test.go'') = Some ErrBadPattern \<and>
   \<not> fst (Match sample_env ''[_test.go'' ''account_test.go'') \<and>
   fileFilter sample_env ''[_test.go'' ''account_test.go'' \<and>
   snd (snd (FindEntities sample_env ''models'' ''[_test.go'')) = None"
proof -
  have h: "snd (Match sample_env ''[_test.go'' ''account_test.go'') = Some ErrBadPattern \<and>
      \<not> fst (Match sample_env ''[_test.go'' ''account_test.go'')"
    by (simp add: sample_env_def sample_Match_def)
  have p: "snd (ParseDir sample_env ''models'' (fileFilter sample_env ''[_test.go'')) = None"
    by (simp add: sample_env_def sample_ParseDir_def)
  from h p
    fileFilter_drops_Match_error [of sample_env "''[_test.go''" "''account_test.go''"
      ErrBadPattern "''models''"]
  show ?thesis by simp
qed

subsection \<open>The two loops\<close>

text \<open>Running a loop over \<open>xs @ ys\<close> is running it over \<open>xs\<close> and then, unless that failed,
  over \<open>ys\<close> from the table reached.\<close>

lemma namesLoop_append:
  "namesLoop env knd tag t (xs @ ys) =
     (case namesLoop env knd tag t xs of
        Inl err \<Rightarrow> Inl err
      | Inr t' \<Rightarrow> namesLoop env knd tag t' ys)"
  by (induction xs arbitrary: t) (simp_all add: Let_def split: sum.splits)

lemma fieldsLoop_append:
  "fieldsLoop env structName t (xs @ ys) =
     (case fieldsLoop env structName t xs of
        Inl err \<Rightarrow> Inl err
      | Inr t' \<Rightarrow> fieldsLoop env structName t' ys)"
  by (induction xs arbitrary: t) (simp_all add: Let_def split: sum.splits prod.splits)

lemma namesLoop_lower:
  "IsLower env (fst (DecodeRuneInString env name)) \<Longrightarrow>
   namesLoop env knd tag t (names1 @ name # names2) = namesLoop env knd tag t (names1 @ names2)"
  by (simp add: namesLoop_append split: sum.splits)

lemma fieldsLoop_ignored:
  "dosaTag env field = ''-'' \<Longrightarrow>
   fieldsLoop env structName t (before @ field # after) = fieldsLoop env structName t (before @ after)"
  by (simp add: fieldsLoop_append split: sum.splits)

lemma fieldsLoop_names_lower:
  assumes "IsLower env (fst (DecodeRuneInString env name))"
  shows "fieldsLoop env structName t (before @ Field (names1 @ name # names2) typ tag # after) =
         fieldsLoop env structName t (before @ Field (names1 @ names2) typ tag # after)"
proof -
  have same_kind: "kind (Field (names1 @ name # names2) typ tag) = kind (Field (names1 @ names2) typ tag)"
    by (simp add: kind_def)
  have same_tag: "dosaTag env (Field (names1 @ name # names2) typ tag) =
      dosaTag env (Field (names1 @ names2) typ tag)"
    by (simp add: dosaTag_def)
  have "fieldsLoop env structName t' (Field (names1 @ name # names2) typ tag # after) =
        fieldsLoop env structName t' (Field (names1 @ names2) typ tag # after)" for t'
    using namesLoop_lower [OF assms] by (simp add: same_kind same_tag Let_def)
  then show ?thesis
    by (simp add: fieldsLoop_append split: sum.splits)
qed



subsection \<open>Evaluating the sample declarations\<close>

lemmas sample_defs =
  sample_env_def sample_StructTag_Get_def sample_TrimSpace_def sample_DecodeRuneInString_def
  sample_IsLower_def sample_NormalizeName_def sample_parseEntityTag_def sample_parseField_def
  sample_translateKeyName_def sample_EnsureValid_def nameChar_def asciiSpace_def asciiLower_def
  nameCharOk_def rawString_def dosaLit_def backquote_def Trim_backquote_def entityTag_Get_def
  dosaTag_def kind_def stringToDosaType_def newTable_def tableFromStructType_def isDosaEntity_def
  RuneError_def Let_def

lemmas user_defs = userStruct_def userMarker_def userName_def userSecret_def userCache_def

lemma translate_user: "tableFromStructType sample_env ''User'' userStruct = Inr userTable"
  by (simp add: sample_defs user_defs userTable_def)

lemma translate_account:
  "tableFromStructType sample_env ''Account'' accountStruct =
     Inl (InvalidColumnType ''Address'' ''Address'')"
  by (simp add: sample_defs accountStruct_def)

lemma translate_blobs:
  "tableFromStructType sample_env ''Blobs'' blobsStruct =
     Inl (Wrap (Foreign ''missing primary key'') ''failed to parse dosa object'')"
  by (simp add: sample_defs blobsStruct_def)

lemma translate_twice: "tableFromStructType sample_env ''Twice'' twiceStruct = Inr twiceTable"
  by (simp add: sample_defs twiceStruct_def twiceTable_def)

lemma translate_person:
  "tableFromStructType sample_env ''Person'' (personFirstMarker # personColumns @ [personLastMarker]) =
     Inr personTable"
  by (simp add: sample_defs personFirstMarker_def personColumns_def personLastMarker_def
      personTable_def)

subsection \<open>Skipped fields and names\<close>

text \<open>
  C6. A field whose tag has exactly \<open>-\<close> as the value of the marker key is skipped: the
  translator returns for the struct what it returns for the struct without this field,
  the same entity (so no column and no table entry come from the field) or the same error
  (so no warning comes from it). \<open>strings.TrimSpace\<close> leaves a single dash as it is.
\<close>

theorem ignored_field_is_skipped:
  assumes "Tag field = Some lit"
    and "entityTag_Get env lit = ''-''"
    and "TrimSpace env ''-'' = ''-''"
  shows "tableFromStructType env structName (before @ field # after) =
         tableFromStructType env structName (before @ after)"
proof -
  from assms have "dosaTag env field = ''-''"
    by (simp add: dosaTag_def)
  then have loop: "fieldsLoop env structName t (before @ field # after) =
      fieldsLoop env structName t (before @ after)" for t
    by (rule fieldsLoop_ignored)
  show ?thesis
    unfolding tableFromStructType_def loop ..
qed

theorem ignored_field_is_skipped_witness:
  "Tag userCache = Some (dosaLit ''-'') \<and>
   entityTag_Get sample_env (dosaLit ''-'') = ''-'' \<and>
   TrimSpace sample_env ''-'' = ''-'' \<and>
   tableFromStructType sample_env ''User'' ([userMarker, userName, userSecret] @ userCache # []) =
     Inr userTable \<and>
   tableFromStructType sample_env ''User'' ([userMarker, userName, userSecret] @ []) = Inr userTable"
proof -
  have h1: "Tag userCache = Some (dosaLit ''-'')"
    by (simp add: userCache_def)
  have h2: "entityTag_Get sample_env (dosaLit ''-'') = ''-''"
    by (simp add: sample_defs)
  have h3: "TrimSpace sample_env ''-'' = ''-''"
    by (simp add: sample_defs)
  have with_cache:
    "tableFromStructType sample_env ''User'' ([userMarker, userName, userSecret] @ userCache # []) =
       Inr userTable"
    using translate_user by (simp add: userStruct_def)
  from h1 h2 h3 with_cache
    ignored_field_is_skipped [OF h1 h2 h3, of "''User''" "[userMarker, userName, userSecret]" "[]"]
  show ?thesis by simp
qed

text \<open>
  C7. A name whose first rune is lower-case is skipped: the translator returns for the
  struct what it returns when the field does not bind this name, the same entity (so the
  name is the field of no column) or the same error (so no warning comes from the name).
  This holds for the names of every field, in particular of the fields that are not the
  marker field, whose names are the only ones the translator reads.
\<close>

theorem unexported_name_is_skipped:
  assumes "IsLower env (fst (DecodeRuneInString env name))"
  shows "tableFromStructType env structName
           (before @ Field (names1 @ name # names2) typ tag # after) =
         tableFromStructType env structName
           (before @ Field (names1 @ names2) typ tag # after)"
proof -
  have loop:
    "fieldsLoop env structName t (before @ Field (names1 @ name # names2) typ tag # after) =
      fieldsLoop env structName t (before @ Field (names1 @ names2) typ tag # after)" for t
    using assms by (rule fieldsLoop_names_lower)
  show ?thesis
    unfolding tableFromStructType_def loop ..
qed

theorem unexported_name_is_skipped_witness:
  "IsLower sample_env (fst (DecodeRuneInString sample_env ''secret'')) \<and>
   kind (Field ([] @ ''secret'' # []) (Ident ''int64'') None) \<noteq> entityName sample_env \<and>
   tableFromStructType sample_env ''User''
     ([userMarker, userName] @ Field ([] @ ''secret'' # []) (Ident ''int64'') None # [userCache]) =
     Inr userTable \<and>
   tableFromStructType sample_env ''User''
     ([userMarker, userName] @ Field ([] @ []) (Ident ''int64'') None # [userCache]) =
     Inr userTable"
proof -
  have h: "IsLower sample_env (fst (DecodeRuneInString sample_env ''secret''))"
    by (simp add: sample_defs)
  have not_marker:
    "kind (Field ([] @ ''secret'' # []) (Ident ''int64'') None) \<noteq> entityName sample_env"
    by (simp add: sample_defs)
  have with_secret:
    "tableFromStructType sample_env ''User''
       ([userMarker, userName] @ Field ([] @ ''secret'' # []) (Ident ''int64'') None # [userCache]) =
       Inr userTable"
    using translate_user by (simp add: userStruct_def userSecret_def)
  from h not_marker with_secret
    unexported_name_is_skipped [OF h, of "''User''" "[userMarker, userName]" "[]" "[]"
      "Ident ''int64''" None "[userCache]"]
  show ?thesis by simp
qed

subsection \<open>More than one marker field\<close>



subsection \<open>The heuristic and the visitor\<close>





subsection \<open>Column types\<close>

lemma namesLoop_columns_valid:
  assumes "\<forall>typ name tag cd. typ \<noteq> Invalid \<longrightarrow> parseField env typ name tag = Inr cd \<longrightarrow> Type cd \<noteq> Invalid"
  shows "\<forall>cd \<in> set (Columns t). Type cd \<noteq> Invalid \<Longrightarrow>
         namesLoop env knd tag t names = Inr t' \<Longrightarrow>
         \<forall>cd \<in> set (Columns t'). Type cd \<noteq> Invalid"
proof (induction names arbitrary: t)
  case Nil
  then show ?case by simp
next
  case (Cons name names)
  show ?case
  proof (cases "IsLower env (fst (DecodeRuneInString env name))")
    case True
    with Cons show ?thesis by simp
  next
    case False
    with Cons.prems(2) obtain cd where
      valid: "stringToDosaType knd \<noteq> Invalid" and
      parsed: "parseField env (stringToDosaType knd) name tag = Inr cd" and
      rest: "namesLoop env knd tag
               (t\<lparr>Columns := Columns t @ [cd],
                  ColToField := (ColToField t)(Name cd \<mapsto> name),
                  FieldToCol := (FieldToCol t)(name \<mapsto> Name cd)\<rparr>) names = Inr t'"
      by (auto simp: Let_def split: if_splits sum.splits)
    from assms valid parsed have "Type cd \<noteq> Invalid" by blast
    with Cons.prems(1) have
      "\<forall>c \<in> set (Columns (t\<lparr>Columns := Columns t @ [cd],
                  ColToField := (ColToField t)(Name cd \<mapsto> name),
                  FieldToCol := (FieldToCol t)(name \<mapsto> Name cd)\<rparr>)). Type c \<noteq> Invalid"
      by simp
    from Cons.IH [OF this rest] show ?thesis .
  qed
qed

lemma fieldsLoop_columns_valid:
  assumes "\<forall>typ name tag cd. typ \<noteq> Invalid \<longrightarrow> parseField env typ name tag = Inr cd \<longrightarrow> Type cd \<noteq> Invalid"
  shows "\<forall>cd \<in> set (Columns t). Type cd \<noteq> Invalid \<Longrightarrow>
         fieldsLoop env structName t fieldList = Inr t' \<Longrightarrow>
         \<forall>cd \<in> set (Columns t'). Type cd \<noteq> Invalid"
proof (induction fieldList arbitrary: t)
  case Nil
  then show ?case by simp
next
  case (Cons field fieldList)
  show ?case
  proof (cases "dosaTag env field = ''-''")
    case True
    with Cons show ?thesis by simp
  next
    case False
    note not_ignored = this
    show ?thesis
    proof (cases "kind field = entityName env")
      case True
      with not_ignored Cons.prems(2) obtain n k where
        rest: "fieldsLoop env structName (t\<lparr>EntityName := n, Key := k\<rparr>) fieldList = Inr t'"
        by (auto simp: Let_def split: sum.splits)
      from Cons.prems(1) have "\<forall>cd \<in> set (Columns (t\<lparr>EntityName := n, Key := k\<rparr>)). Type cd \<noteq> Invalid"
        by simp
      from Cons.IH [OF this rest] show ?thesis .
    next
      case False
      with not_ignored Cons.prems(2) obtain t1 where
        inner: "namesLoop env (kind field) (dosaTag env field) t (Names field) = Inr t1" and
        rest: "fieldsLoop env structName t1 fieldList = Inr t'"
        by (auto simp: Let_def split: sum.splits)
      from namesLoop_columns_valid [OF assms Cons.prems(1) inner]
      have "\<forall>cd \<in> set (Columns t1). Type cd \<noteq> Invalid" .
      from Cons.IH [OF this rest] show ?thesis .
    qed
  qed
qed

lemma namesLoop_invalid_fails:
  "stringToDosaType knd = Invalid \<Longrightarrow> name \<in> set names \<Longrightarrow>
   \<not> IsLower env (fst (DecodeRuneInString env name)) \<Longrightarrow>
   \<exists>err. namesLoop env knd tag t names = Inl err"
  by (induction names arbitrary: t) (auto simp: Let_def)

lemma fieldsLoop_invalid_fails:
  assumes "dosaTag env field \<noteq> ''-''" and "kind field \<noteq> entityName env"
    and "stringToDosaType (kind field) = Invalid" and "name \<in> set (Names field)"
    and "\<not> IsLower env (fst (DecodeRuneInString env name))"
  shows "field \<in> set fieldList \<Longrightarrow> \<exists>err. fieldsLoop env structName t fieldList = Inl err"
proof (induction fieldList arbitrary: t)
  case Nil
  then show ?case by simp
next
  case (Cons first fieldList)
  show ?case
  proof (cases "first = field")
    case True
    from namesLoop_invalid_fails [OF assms(3,4,5)] obtain err where
      "namesLoop env (kind field) (dosaTag env field) t (Names field) = Inl err"
      by blast
    with True assms(1,2) show ?thesis by (simp add: Let_def)
  next
    case False
    with Cons.prems have "field \<in> set fieldList" by simp
    then have "\<exists>err. fieldsLoop env structName t' fieldList = Inl err" for t'
      by (rule Cons.IH)
    then show ?thesis
      by (auto simp: Let_def split: sum.splits)
  qed
qed

lemma namesLoop_none_exported:
  "\<forall>name \<in> set names. IsLower env (fst (DecodeRuneInString env name)) \<Longrightarrow>
   namesLoop env knd tag t names = Inr t"
  by (induction names) simp_all

lemma fieldsLoop_none_exported:
  assumes "kind field \<noteq> entityName env" and "exportedNames env field = []"
  shows "fieldsLoop env structName t (before @ field # after) =
         fieldsLoop env structName t (before @ after)"
proof -
  from assms(2) have "\<forall>name \<in> set (Names field). IsLower env (fst (DecodeRuneInString env name))"
    by (simp add: exportedNames_def filter_empty_conv)
  then have "namesLoop env (kind field) (dosaTag env field) t' (Names field) = Inr t'" for t'
    by (rule namesLoop_none_exported)
  with assms(1) have "fieldsLoop env structName t' (field # after) =
      fieldsLoop env structName t' after" for t'
    by (simp add: Let_def)
  then show ?thesis
    by (simp add: fieldsLoop_append split: sum.splits)
qed

text \<open>
  C2, as the code has it. Provided that \<open>parseField\<close> does not answer a valid type with a
  column of type \<open>Invalid\<close>, and that \<open>translateKeyName\<close> leaves the columns as they are,
  every column of a table returned by the translator has a type other than \<open>Invalid\<close>.
  The type label is checked where a column would be attached, once for each name that is
  not lower-case: a field that is not ignored, that is not the marker field and that binds
  such a name makes the translation fail when its label maps to \<open>Invalid\<close>. A field that is
  not the marker field and binds no such name is passed over whatever its label is: the
  translator returns what it returns for the struct without the field.
\<close>

theorem columns_never_Invalid:
  "((\<forall>typ name tag cd.
        typ \<noteq> Invalid \<longrightarrow> parseField env typ name tag = Inr cd \<longrightarrow> Type cd \<noteq> Invalid) \<and>
    (\<forall>t. Columns (translateKeyName env t) = Columns t) \<and>
    tableFromStructType env structName structType = Inr table \<longrightarrow>
      (\<forall>cd \<in> set (Columns table). Type cd \<noteq> Invalid)) \<and>
   (field \<in> set structType \<and> dosaTag env field \<noteq> ''-'' \<and> kind field \<noteq> entityName env \<and>
    stringToDosaType (kind field) = Invalid \<and> name \<in> set (Names field) \<and>
    \<not> IsLower env (fst (DecodeRuneInString env name)) \<longrightarrow>
      (\<exists>err. tableFromStructType env structName structType = Inl err)) \<and>
   (kind field \<noteq> entityName env \<and> exportedNames env field = [] \<longrightarrow>
      tableFromStructType env structName (before @ field # after) =
      tableFromStructType env structName (before @ after))"
proof (intro conjI impI)
  assume h: "(\<forall>typ name tag cd.
        typ \<noteq> Invalid \<longrightarrow> parseField env typ name tag = Inr cd \<longrightarrow> Type cd \<noteq> Invalid) \<and>
    (\<forall>t. Columns (translateKeyName env t) = Columns t) \<and>
    tableFromStructType env structName structType = Inr table"
  then have parse: "\<forall>typ name tag cd.
        typ \<noteq> Invalid \<longrightarrow> parseField env typ name tag = Inr cd \<longrightarrow> Type cd \<noteq> Invalid"
    and keeps: "\<And>t. Columns (translateKeyName env t) = Columns t"
    and translated: "tableFromStructType env structName structType = Inr table"
    by blast+
  from translated obtain normalizedName t where
    loop: "fieldsLoop env structName (newTable structName normalizedName) structType = Inr t" and
    table: "table = translateKeyName env t"
    by (auto simp: tableFromStructType_def Let_def split: sum.splits option.splits)
  have "\<forall>cd \<in> set (Columns (newTable structName normalizedName :: 'a Table)). Type cd \<noteq> Invalid"
    by (simp add: newTable_def)
  from fieldsLoop_columns_valid [OF parse this loop]
  have "\<forall>cd \<in> set (Columns t). Type cd \<noteq> Invalid" .
  with table keeps show "\<forall>cd \<in> set (Columns table). Type cd \<noteq> Invalid"
    by simp
next
  assume h: "field \<in> set structType \<and> dosaTag env field \<noteq> ''-'' \<and> kind field \<noteq> entityName env \<and>
    stringToDosaType (kind field) = Invalid \<and> name \<in> set (Names field) \<and>
    \<not> IsLower env (fst (DecodeRuneInString env name))"
  then have fails: "\<exists>err. fieldsLoop env structName t structType = Inl err" for t
    using fieldsLoop_invalid_fails [of env field name structType structName t] by blast
  show "\<exists>err. tableFromStructType env structName structType = Inl err"
  proof (cases "NormalizeName env structName")
    case (Inl err)
    then show ?thesis by (simp add: tableFromStructType_def)
  next
    case (Inr normalizedName)
    from fails obtain err where
      "fieldsLoop env structName (newTable structName normalizedName) structType = Inl err"
      by blast
    with Inr show ?thesis by (simp add: tableFromStructType_def)
  qed
next
  assume "kind field \<noteq> entityName env \<and> exportedNames env field = []"
  then have loop: "fieldsLoop env structName t (before @ field # after) =
      fieldsLoop env structName t (before @ after)" for t
    by (intro fieldsLoop_none_exported) simp_all
  show "tableFromStructType env structName (before @ field # after) =
      tableFromStructType env structName (before @ after)"
    unfolding tableFromStructType_def loop ..
qed

lemma sample_parseField_Type:
  "\<forall>typ name tag cd.
     typ \<noteq> Invalid \<longrightarrow> parseField sample_env typ name tag = Inr cd \<longrightarrow> Type cd \<noteq> Invalid"
  by (auto simp: sample_env_def sample_parseField_def split: if_splits sum.splits option.splits)

lemma sample_translateKeyName_keeps:
  "Columns (translateKeyName sample_env t) = Columns t \<and>
   ColToField (translateKeyName sample_env t) = ColToField t \<and>
   FieldToCol (translateKeyName sample_env t) = FieldToCol t"
  by (simp add: sample_env_def sample_translateKeyName_def)

theorem columns_never_Invalid_witness:
  "tableFromStructType sample_env ''User'' userStruct = Inr userTable \<and>
   map Type (Columns userTable) = [String] \<and>
   Type (hd (Columns userTable)) \<noteq> Invalid \<and>
   Field [''Address''] (Ident ''Address'') None \<in> set accountStruct \<and>
   stringToDosaType (kind (Field [''Address''] (Ident ''Address'') None)) = Invalid \<and>
   tableFromStructType sample_env ''Account'' accountStruct =
     Inl (InvalidColumnType ''Address'' ''Address'') \<and>
   exportedNames sample_env userSecret = [] \<and>
   tableFromStructType sample_env ''User'' ([userMarker, userName] @ [userCache]) =
     Inr userTable"
proof -
  have keeps: "\<forall>t. Columns (translateKeyName sample_env t) = Columns t"
    by (simp add: sample_translateKeyName_keeps)
  have bad: "Field [''Address''] (Ident ''Address'') None \<in> set accountStruct \<and>
      dosaTag sample_env (Field [''Address''] (Ident ''Address'') None) \<noteq> ''-'' \<and>
      kind (Field [''Address''] (Ident ''Address'') None) \<noteq> entityName sample_env \<and>
      stringToDosaType (kind (Field [''Address''] (Ident ''Address'') None)) = Invalid \<and>
      ''Address'' \<in> set (Names (Field [''Address''] (Ident ''Address'') None)) \<and>
      \<not> IsLower sample_env (fst (DecodeRuneInString sample_env ''Address''))"
    by (simp add: sample_defs accountStruct_def)
  have secret: "kind userSecret \<noteq> entityName sample_env \<and> exportedNames sample_env userSecret = []"
    by (simp add: exportedNames_def sample_defs userSecret_def)
  have with_secret:
    "tableFromStructType sample_env ''User'' ([userMarker, userName] @ userSecret # [userCache]) =
       Inr userTable"
    using translate_user by (simp add: userStruct_def)
  from sample_parseField_Type keeps translate_user bad secret
    columns_never_Invalid [of sample_env "''User''" userStruct userTable
      "Field [''Address''] (Ident ''Address'') None" "''Address''" "[]" "[]"]
    columns_never_Invalid [of sample_env "''Account''" accountStruct userTable
      "Field [''Address''] (Ident ''Address'') None" "''Address''" "[]" "[]"]
    columns_never_Invalid [of sample_env "''User''" userStruct userTable
      userSecret "''secret''" "[userMarker, userName]" "[userCache]"]
  have user: "\<forall>cd \<in> set (Columns userTable). Type cd \<noteq> Invalid"
    and account: "\<exists>err. tableFromStructType sample_env ''Account'' accountStruct = Inl err"
    and skipped:
      "tableFromStructType sample_env ''User'' ([userMarker, userName] @ userSecret # [userCache]) =
       tableFromStructType sample_env ''User'' ([userMarker, userName] @ [userCache])"
    by blast+
  have columns: "map Type (Columns userTable) = [String]"
    by (simp add: userTable_def)
  then have "hd (Columns userTable) \<in> set (Columns userTable)"
    by (cases "Columns userTable") simp_all
  with user have valid: "Type (hd (Columns userTable)) \<noteq> Invalid"
    by blast
  from skipped with_secret have
    "tableFromStructType sample_env ''User'' ([userMarker, userName] @ [userCache]) = Inr userTable"
    by simp
  with columns valid translate_account translate_user bad secret show ?thesis
    by blast
qed

text \<open>
  C2, as it is stated, fails on \<open>Member\<close>, which embeds \<open>Address\<close>. The label of the embedded
  field maps to \<open>Invalid\<close>, the field is neither ignored nor the marker field, and yet the
  translation succeeds: the field binds no name, so the label is never looked at.
\<close>

theorem invalid_label_without_failure:
  "memberStruct = userStruct @ [Field [] (Ident ''Address'') None] \<and>
   stringToDosaType (kind (Field [] (Ident ''Address'') None)) = Invalid \<and>
   dosaTag sample_env (Field [] (Ident ''Address'') None) = '''' \<and>
   kind (Field [] (Ident ''Address'') None) = ''Address'' \<and>
   entityName sample_env = ''Entity'' \<and>
   tableFromStructType sample_env ''Member'' memberStruct =
     Inr (userTable\<lparr>StructName := ''Member'', EntityName := ''member''\<rparr>)"
proof -
  have "tableFromStructType sample_env ''Member'' memberStruct =
      Inr (userTable\<lparr>StructName := ''Member'', EntityName := ''member''\<rparr>)"
    by (simp add: sample_defs memberStruct_def user_defs userTable_def)
  moreover have "stringToDosaType (kind (Field [] (Ident ''Address'') None)) = Invalid"
    by (simp add: sample_defs)
  moreover have "dosaTag sample_env (Field [] (Ident ''Address'') None) = ''''"
    by (simp add: sample_defs)
  moreover have "kind (Field [] (Ident ''Address'') None) = ''Address''"
    by (simp add: sample_defs)
  moreover have "entityName sample_env = ''Entity''"
    by (simp add: sample_env_def)
  ultimately show ?thesis
    by (simp add: memberStruct_def)
qed

subsection \<open>The mapping tables\<close>

text \<open>
  What the loops do to the columns and to the two tables: they append one column for each
  name that gets one, and enter the name and the column's name into both tables, later
  entries overwriting earlier ones.
\<close>

lemma namesLoop_tables:
  "namesLoop env knd tag t names = Inr t' \<Longrightarrow>
   \<exists>cds. length cds = length (exportedNames env (Field names typ lit)) \<and>
     Columns t' = Columns t @ cds \<and>
     FieldToCol t' =
       FieldToCol t ++ map_of (rev (zip (exportedNames env (Field names typ lit)) (map Name cds))) \<and>
     ColToField t' =
       ColToField t ++ map_of (rev (zip (map Name cds) (exportedNames env (Field names typ lit))))"
proof (induction names arbitrary: t)
  case Nil
  then show ?case by (simp add: exportedNames_def)
next
  case (Cons name names)
  show ?case
  proof (cases "IsLower env (fst (DecodeRuneInString env name))")
    case True
    with Cons.prems have "namesLoop env knd tag t names = Inr t'" by simp
    from Cons.IH [OF this] True show ?thesis
      by (simp add: exportedNames_def)
  next
    case False
    with Cons.prems obtain cd where
      rest: "namesLoop env knd tag
               (t\<lparr>Columns := Columns t @ [cd],
                  ColToField := (ColToField t)(Name cd \<mapsto> name),
                  FieldToCol := (FieldToCol t)(name \<mapsto> Name cd)\<rparr>) names = Inr t'"
      by (auto simp: Let_def split: if_splits sum.splits)
    define t1 where "t1 = t\<lparr>Columns := Columns t @ [cd],
                  ColToField := (ColToField t)(Name cd \<mapsto> name),
                  FieldToCol := (FieldToCol t)(name \<mapsto> Name cd)\<rparr>"
    have t1: "Columns t1 = Columns t @ [cd]"
      "FieldToCol t1 = (FieldToCol t)(name \<mapsto> Name cd)"
      "ColToField t1 = (ColToField t)(Name cd \<mapsto> name)"
      by (simp_all add: t1_def)
    from rest have "namesLoop env knd tag t1 names = Inr t'"
      by (simp only: t1_def)
    from Cons.IH [OF this] obtain cds where
      len: "length cds = length (exportedNames env (Field names typ lit))" and
      cols: "Columns t' = Columns t1 @ cds" and
      f2c: "FieldToCol t' = FieldToCol t1 ++
              map_of (rev (zip (exportedNames env (Field names typ lit)) (map Name cds)))" and
      c2f: "ColToField t' = ColToField t1 ++
              map_of (rev (zip (map Name cds) (exportedNames env (Field names typ lit))))"
      by blast
    have names: "exportedNames env (Field (name # names) typ lit) =
        name # exportedNames env (Field names typ lit)"
      using False by (simp add: exportedNames_def)
    have upd: "m(k \<mapsto> v) ++ map_of (rev ps) = m ++ map_of (rev ((k, v) # ps))"
      for m :: "string \<rightharpoonup> string" and k v ps
      by (simp add: map_add_def fun_eq_iff split: option.splits)
    from len cols f2c c2f show ?thesis
      unfolding names t1
      by (intro exI [of _ "cd # cds"]) (simp add: upd del: map_of.simps rev.simps)
  qed
qed

lemma fieldsLoop_tables:
  "fieldsLoop env structName t fieldList = Inr t' \<Longrightarrow>
   \<exists>cds. length cds = length (columnFields env fieldList) \<and>
     Columns t' = Columns t @ cds \<and>
     FieldToCol t' = FieldToCol t ++ map_of (rev (zip (columnFields env fieldList) (map Name cds))) \<and>
     ColToField t' = ColToField t ++ map_of (rev (zip (map Name cds) (columnFields env fieldList)))"
proof (induction fieldList arbitrary: t)
  case Nil
  then show ?case by (simp add: columnFields_def)
next
  case (Cons field fieldList)
  show ?case
  proof (cases "dosaTag env field \<noteq> ''-'' \<and> kind field \<noteq> entityName env")
    case False
    then have same: "columnFields env (field # fieldList) = columnFields env fieldList"
      by (auto simp: columnFields_def)
    from False Cons.prems obtain t1 where
      rest: "fieldsLoop env structName t1 fieldList = Inr t'" and
      t1: "Columns t1 = Columns t" "FieldToCol t1 = FieldToCol t" "ColToField t1 = ColToField t"
      by (cases "dosaTag env field = ''-''") (auto simp: Let_def split: sum.splits)
    from Cons.IH [OF rest] t1 show ?thesis
      unfolding same by simp
  next
    case True
    then have split: "columnFields env (field # fieldList) =
        exportedNames env field @ columnFields env fieldList"
      by (simp add: columnFields_def)
    from True Cons.prems obtain t1 where
      inner: "namesLoop env (kind field) (dosaTag env field) t (Names field) = Inr t1" and
      rest: "fieldsLoop env structName t1 fieldList = Inr t'"
      by (auto simp: Let_def split: sum.splits)
    have "Field (Names field) (FieldType field) (Tag field) = field" by simp
    with namesLoop_tables [OF inner, of "FieldType field" "Tag field"] obtain cds1 where
      len1: "length cds1 = length (exportedNames env field)" and
      cols1: "Columns t1 = Columns t @ cds1" and
      f2c1: "FieldToCol t1 =
               FieldToCol t ++ map_of (rev (zip (exportedNames env field) (map Name cds1)))" and
      c2f1: "ColToField t1 =
               ColToField t ++ map_of (rev (zip (map Name cds1) (exportedNames env field)))"
      by auto
    from Cons.IH [OF rest] obtain cds2 where
      len2: "length cds2 = length (columnFields env fieldList)" and
      cols2: "Columns t' = Columns t1 @ cds2" and
      f2c2: "FieldToCol t' =
               FieldToCol t1 ++ map_of (rev (zip (columnFields env fieldList) (map Name cds2)))" and
      c2f2: "ColToField t' =
               ColToField t1 ++ map_of (rev (zip (map Name cds2) (columnFields env fieldList)))"
      by auto
    from len1 len2 cols1 cols2 f2c1 f2c2 c2f1 c2f2 show ?thesis
      unfolding split
      by (intro exI [of _ "cds1 @ cds2"]) simp
  qed
qed

text \<open>Two tables built from the same pairs, read in either direction, are inverses when
  no key occurs twice on either side.\<close>

lemma zip_tables_inverse:
  assumes "length ns = length cs" and "distinct ns" and "distinct cs"
  shows "map_of (rev (zip cs ns)) c = Some n \<longleftrightarrow> map_of (rev (zip ns cs)) n = Some c"
proof -
  from assms have "distinct (map fst (rev (zip cs ns)))" "distinct (map fst (rev (zip ns cs)))"
    by (simp_all add: rev_map [symmetric])
  then have "map_of (rev (zip cs ns)) c = Some n \<longleftrightarrow> (c, n) \<in> set (zip cs ns)"
    and "map_of (rev (zip ns cs)) n = Some c \<longleftrightarrow> (n, c) \<in> set (zip ns cs)"
    by simp_all
  moreover have "(c, n) \<in> set (zip cs ns) \<longleftrightarrow> (n, c) \<in> set (zip ns cs)"
    by (auto simp: in_set_zip)
  ultimately show ?thesis by simp
qed

lemma dom_zip_table: "length ns = length cs \<Longrightarrow> dom (map_of (rev (zip ns cs))) = set ns"
  by (simp add: dom_map_of_conv_image_fst rev_map [symmetric] flip: set_map)

text \<open>
  C5, as the code has it. Provided that \<open>translateKeyName\<close> leaves the columns and the two
  tables as they are: when the names that get a column are pairwise distinct and the names
  of the columns are pairwise distinct, the two tables of a table returned by the
  translator are exact inverses of each other, the fields of the one are exactly the
  non-ignored, exported fields of the struct, and the columns of the other are exactly the
  columns of the table.
\<close>

theorem mapping_tables_inverse:
  assumes "\<forall>t. Columns (translateKeyName env t) = Columns t \<and>
               ColToField (translateKeyName env t) = ColToField t \<and>
               FieldToCol (translateKeyName env t) = FieldToCol t"
    and "tableFromStructType env structName structType = Inr table"
    and "distinct (columnFields env structType)"
    and "distinct (map Name (Columns table))"
  shows "(\<forall>col fld. ColToField table col = Some fld \<longleftrightarrow> FieldToCol table fld = Some col) \<and>
         dom (FieldToCol table) = set (columnFields env structType) \<and>
         dom (ColToField table) = set (map Name (Columns table))"
proof -
  from assms(2) obtain normalizedName t where
    loop: "fieldsLoop env structName (newTable structName normalizedName) structType = Inr t" and
    table: "table = translateKeyName env t"
    by (auto simp: tableFromStructType_def Let_def split: sum.splits option.splits)
  from fieldsLoop_tables [OF loop] obtain cds where
    len: "length cds = length (columnFields env structType)" and
    cols: "Columns t = cds" and
    f2c: "FieldToCol t = map_of (rev (zip (columnFields env structType) (map Name cds)))" and
    c2f: "ColToField t = map_of (rev (zip (map Name cds) (columnFields env structType)))"
    by (auto simp: newTable_def)
  from assms(1) table cols f2c c2f have
    cols': "Columns table = cds" and
    f2c': "FieldToCol table = map_of (rev (zip (columnFields env structType) (map Name cds)))" and
    c2f': "ColToField table = map_of (rev (zip (map Name cds) (columnFields env structType)))"
    by simp_all
  from len have len': "length (columnFields env structType) = length (map Name cds)"
    by simp
  from assms(4) cols' have dist: "distinct (map Name cds)"
    by simp
  have "ColToField table col = Some fld \<longleftrightarrow> FieldToCol table fld = Some col" for col fld
    unfolding f2c' c2f' using len' assms(3) dist by (rule zip_tables_inverse)
  moreover have "dom (FieldToCol table) = set (columnFields env structType)"
    unfolding f2c' using len' by (rule dom_zip_table)
  moreover have "dom (ColToField table) = set (map Name (Columns table))"
    unfolding c2f' cols' using len' [symmetric] by (rule dom_zip_table)
  ultimately show ?thesis by blast
qed

theorem mapping_tables_inverse_witness:
  "tableFromStructType sample_env ''Person'' (personFirstMarker # personColumns @ [personLastMarker]) =
     Inr personTable \<and>
   columnFields sample_env (personFirstMarker # personColumns @ [personLastMarker]) =
     [''Name'', ''ID''] \<and>
   map Name (Columns personTable) = [''name'', ''id''] \<and>
   ColToField personTable ''id'' = Some ''ID'' \<and>
   FieldToCol personTable ''ID'' = Some ''id'' \<and>
   ColToField personTable ''ID'' = None \<and>
   dom (FieldToCol personTable) = {''Name'', ''ID''} \<and>
   dom (ColToField personTable) = {''name'', ''id''}"
proof -
  have keeps: "\<forall>t. Columns (translateKeyName sample_env t) = Columns t \<and>
               ColToField (translateKeyName sample_env t) = ColToField t \<and>
               FieldToCol (translateKeyName sample_env t) = FieldToCol t"
    by (simp add: sample_translateKeyName_keeps)
  have fields: "columnFields sample_env (personFirstMarker # personColumns @ [personLastMarker]) =
      [''Name'', ''ID'']"
    by (simp add: columnFields_def exportedNames_def sample_defs personFirstMarker_def
        personColumns_def personLastMarker_def)
  have columns: "map Name (Columns personTable) = [''name'', ''id'']"
    by (simp add: personTable_def)
  have d1: "distinct (columnFields sample_env (personFirstMarker # personColumns @ [personLastMarker]))"
    unfolding fields by simp
  have d2: "distinct (map Name (Columns personTable))"
    unfolding columns by simp
  from mapping_tables_inverse [OF keeps translate_person d1 d2] have
    inverse: "\<And>col fld. ColToField personTable col = Some fld \<longleftrightarrow>
                FieldToCol personTable fld = Some col" and
    doms: "dom (FieldToCol personTable) =
             set (columnFields sample_env (personFirstMarker # personColumns @ [personLastMarker]))"
      "dom (ColToField personTable) = set (map Name (Columns personTable))"
    by blast+
  have c2f: "ColToField personTable ''id'' = Some ''ID''"
    by (simp add: personTable_def)
  with inverse have f2c: "FieldToCol personTable ''ID'' = Some ''id''"
    by blast
  have none: "ColToField personTable ''ID'' = None"
    by (simp add: personTable_def)
  from doms fields columns have
    "dom (FieldToCol personTable) = {''Name'', ''ID''}"
    "dom (ColToField personTable) = {''name'', ''id''}"
    by simp_all
  with c2f f2c none fields columns translate_person show ?thesis
    by blast
qed

text \<open>
  C5, as it is stated, fails on \<open>Twice\<close>, whose two exported fields have the same name and
  different columns: the translator returns a table in which column \<open>x\<close> leads to field
  \<open>A\<close>, while field \<open>A\<close> leads to column \<open>y\<close>.
\<close>

theorem mapping_tables_not_inverse:
  "tableFromStructType sample_env ''Twice'' twiceStruct = Inr twiceTable \<and>
   columnFields sample_env twiceStruct = [''A'', ''A''] \<and>
   ColToField twiceTable ''x'' = Some ''A'' \<and>
   FieldToCol twiceTable ''A'' = Some ''y''"
proof -
  have "columnFields sample_env twiceStruct = [''A'', ''A'']"
    by (simp add: columnFields_def exportedNames_def sample_defs twiceStruct_def)
  moreover have "ColToField twiceTable ''x'' = Some ''A''"
    by (simp add: twiceTable_def)
  moreover have "FieldToCol twiceTable ''A'' = Some ''y''"
    by (simp add: twiceTable_def)
  ultimately show ?thesis using translate_twice by simp
qed

subsection \<open>The scan visits every candidate\<close>

lemma entitiesOf_append: "entitiesOf env (xs @ ys) = entitiesOf env xs @ entitiesOf env ys"
  by (induction xs) (auto split: sum.splits)

lemma warningsOf_append: "warningsOf env (xs @ ys) = warningsOf env xs @ warningsOf env ys"
  by (induction xs) (auto split: sum.splits)

text \<open>A loop whose every step appends the outcomes of some candidates appends the
  outcomes of all of them, in order.\<close>

lemma fold_appends:
  assumes "\<And>x s. x \<in> set xs \<Longrightarrow>
      step x s = s\<lparr>Entities := Entities s @ entitiesOf env (cs x),
                   Warnings := Warnings s @ warningsOf env (cs x)\<rparr>"
  shows "fold step xs f =
      f\<lparr>Entities := Entities f @ entitiesOf env (concat (map cs xs)),
        Warnings := Warnings f @ warningsOf env (concat (map cs xs))\<rparr>"
  using assms
proof (induction xs arbitrary: f)
  case Nil
  then show ?case by simp
next
  case (Cons x xs)
  have first: "step x f = f\<lparr>Entities := Entities f @ entitiesOf env (cs x),
                   Warnings := Warnings f @ warningsOf env (cs x)\<rparr>"
    by (rule Cons.prems) simp
  have "fold step xs (step x f) =
      (step x f)\<lparr>Entities := Entities (step x f) @ entitiesOf env (concat (map cs xs)),
        Warnings := Warnings (step x f) @ warningsOf env (concat (map cs xs))\<rparr>"
    by (rule Cons.IH) (simp add: Cons.prems)
  then show ?case
    by (simp add: first entitiesOf_append warningsOf_append)
qed

lemma Walk_appends:
  "Walk env f n =
     f\<lparr>Entities := Entities f @ entitiesOf env (candidates env n),
       Warnings := Warnings f @ warningsOf env (candidates env n)\<rparr>"
proof (induction n arbitrary: f)
  case (TypeSpec name ty)
  show ?case
    by (subst Walk.simps) (simp add: Visit_def split: expr.splits sum.splits)
next
  case (OtherNode ns)
  show ?case
    by (subst Walk.simps) (simp add: Visit_def)
next
  case (File ns)
  then have "fold (\<lambda>c s. Walk env s c) ns f =
      f\<lparr>Entities := Entities f @ entitiesOf env (concat (map (candidates env) ns)),
        Warnings := Warnings f @ warningsOf env (concat (map (candidates env) ns))\<rparr>"
    by (intro fold_appends) simp
  then show ?case
    by (subst Walk.simps) (simp add: Visit_def)
next
  case (Package ns)
  then have "fold (\<lambda>c s. Walk env s c) ns f =
      f\<lparr>Entities := Entities f @ entitiesOf env (concat (map (candidates env) ns)),
        Warnings := Warnings f @ warningsOf env (concat (map (candidates env) ns))\<rparr>"
    by (intro fold_appends) simp
  then show ?case
    by (subst Walk.simps) (simp add: Visit_def)
next
  case (BlockStmt ns)
  then have "fold (\<lambda>c s. Walk env s c) ns f =
      f\<lparr>Entities := Entities f @ entitiesOf env (concat (map (candidates env) ns)),
        Warnings := Warnings f @ warningsOf env (concat (map (candidates env) ns))\<rparr>"
    by (intro fold_appends) simp
  then show ?case
    by (subst Walk.simps) (simp add: Visit_def)
next
  case (DeclStmt ns)
  then have "fold (\<lambda>c s. Walk env s c) ns f =
      f\<lparr>Entities := Entities f @ entitiesOf env (concat (map (candidates env) ns)),
        Warnings := Warnings f @ warningsOf env (concat (map (candidates env) ns))\<rparr>"
    by (intro fold_appends) simp
  then show ?case
    by (subst Walk.simps) (simp add: Visit_def)
next
  case (FuncDecl ns)
  then have "fold (\<lambda>c s. Walk env s c) ns f =
      f\<lparr>Entities := Entities f @ entitiesOf env (concat (map (candidates env) ns)),
        Warnings := Warnings f @ warningsOf env (concat (map (candidates env) ns))\<rparr>"
    by (intro fold_appends) simp
  then show ?case
    by (subst Walk.simps) (simp add: Visit_def)
next
  case (GenDecl ns)
  then have "fold (\<lambda>c s. Walk env s c) ns f =
      f\<lparr>Entities := Entities f @ entitiesOf env (concat (map (candidates env) ns)),
        Warnings := Warnings f @ warningsOf env (concat (map (candidates env) ns))\<rparr>"
    by (intro fold_appends) simp
  then show ?case
    by (subst Walk.simps) (simp add: Visit_def)
qed

text \<open>The three nested loops of \<open>FindEntities\<close> reach every declaration of every file of
  every package.\<close>

lemma walkPackages_appends:
  "walkPackages env f packages =
     f\<lparr>Entities := Entities f @ entitiesOf env (scanCandidates env packages),
       Warnings := Warnings f @ warningsOf env (scanCandidates env packages)\<rparr>"
proof -
  have decls: "fold (\<lambda>decl f. Walk env f decl) (Decls fl) s =
      s\<lparr>Entities := Entities s @ entitiesOf env (fileCandidates env fl),
        Warnings := Warnings s @ warningsOf env (fileCandidates env fl)\<rparr>" for fl s
    unfolding fileCandidates_def by (intro fold_appends) (rule Walk_appends)
  have files: "fold (\<lambda>file. fold (\<lambda>decl f. Walk env f decl) (Decls file)) (Files pkg) s =
      s\<lparr>Entities := Entities s @ entitiesOf env (packageCandidates env pkg),
        Warnings := Warnings s @ warningsOf env (packageCandidates env pkg)\<rparr>" for pkg s
    unfolding packageCandidates_def by (intro fold_appends) (rule decls)
  show ?thesis
    unfolding walkPackages_def scanCandidates_def by (intro fold_appends) (rule files)
qed

lemma FindEntities_outcomes:
  "ParseDir env path (fileFilter env excludes) = (packages, None) \<Longrightarrow>
   FindEntities env path excludes =
     (entitiesOf env (scanCandidates env packages), warningsOf env (scanCandidates env packages),
      None)"
  by (simp add: FindEntities_def walkPackages_appends)

text \<open>
  C3. Take a scan that parses, and any candidate of it, with the candidates before it and
  after it in the traversal (in the same declaration, in later declarations, in later
  files, in later packages). The heuristic accepts the candidate. When the translator
  fails on it, the visitor appends the error to its warnings and nothing to its entities,
  and the scan returns the entities of the other candidates, and the warnings of the
  candidates before, this error, and the warnings of the candidates after: the scan has
  gone on. When the translator succeeds, the visitor appends the table to its entities and
  nothing to its warnings, and the scan returns the table between the entities of the
  candidates before and after, and only the warnings of the other candidates.
\<close>

theorem scan_records_every_outcome:
  assumes "ParseDir env path (fileFilter env excludes) = (packages, None)"
    and "scanCandidates env packages = before @ (name, structType) # after"
  shows "isDosaEntity env structType \<and>
    (tableFromStructType env name structType = Inl err \<longrightarrow>
       Visit env f (TypeSpec name (StructType structType)) =
         (f\<lparr>Warnings := Warnings f @ [err]\<rparr>, False) \<and>
       Entities (f\<lparr>Warnings := Warnings f @ [err]\<rparr>) = Entities f \<and>
       FindEntities env path excludes =
         (entitiesOf env before @ entitiesOf env after,
          warningsOf env before @ [err] @ warningsOf env after, None)) \<and>
    (tableFromStructType env name structType = Inr table \<longrightarrow>
       Visit env f (TypeSpec name (StructType structType)) =
         (f\<lparr>Entities := Entities f @ [table]\<rparr>, False) \<and>
       Warnings (f\<lparr>Entities := Entities f @ [table]\<rparr>) = Warnings f \<and>
       FindEntities env path excludes =
         (entitiesOf env before @ [table] @ entitiesOf env after,
          warningsOf env before @ warningsOf env after, None))"
proof -
  have accepted_all: "\<forall>(nm, st) \<in> set (candidates env n). isDosaEntity env st" for n
    by (induction n) (auto split: expr.splits if_splits)
  have "(name, structType) \<in> set (scanCandidates env packages)"
    using assms(2) by simp
  then obtain n where "(name, structType) \<in> set (candidates env n)"
    by (auto simp: scanCandidates_def packageCandidates_def fileCandidates_def)
  with accepted_all [of n] have accepted: "isDosaEntity env structType"
    by auto
  have scan: "FindEntities env path excludes =
      (entitiesOf env before @ entitiesOf env [(name, structType)] @ entitiesOf env after,
       warningsOf env before @ warningsOf env [(name, structType)] @ warningsOf env after, None)"
    using FindEntities_outcomes [OF assms(1)]
      entitiesOf_append [of env before "(name, structType) # after"]
      warningsOf_append [of env before "(name, structType) # after"]
      entitiesOf_append [of env "[(name, structType)]" after]
      warningsOf_append [of env "[(name, structType)]" after]
    by (simp add: assms(2))
  show ?thesis
  proof (intro conjI impI)
    show "isDosaEntity env structType" by (rule accepted)
  next
    assume failed: "tableFromStructType env name structType = Inl err"
    with accepted show "Visit env f (TypeSpec name (StructType structType)) =
        (f\<lparr>Warnings := Warnings f @ [err]\<rparr>, False)"
      by (simp add: Visit_def)
    show "Entities (f\<lparr>Warnings := Warnings f @ [err]\<rparr>) = Entities f"
      by simp
    from failed scan show "FindEntities env path excludes =
        (entitiesOf env before @ entitiesOf env after,
         warningsOf env before @ [err] @ warningsOf env after, None)"
      by simp
  next
    assume translated: "tableFromStructType env name structType = Inr table"
    with accepted show "Visit env f (TypeSpec name (StructType structType)) =
        (f\<lparr>Entities := Entities f @ [table]\<rparr>, False)"
      by (simp add: Visit_def)
    show "Warnings (f\<lparr>Entities := Entities f @ [table]\<rparr>) = Warnings f"
      by simp
    from translated scan show "FindEntities env path excludes =
        (entitiesOf env before @ [table] @ entitiesOf env after,
         warningsOf env before @ warningsOf env after, None)"
      by simp
  qed
qed

lemma sample_packages:
  "ParseDir sample_env ''models'' (fileFilter sample_env '''') =
     ([\<lparr>Files = [accountFile, userFile]\<rparr>, \<lparr>Files = [testFile]\<rparr>], None)"
  by (simp add: sample_env_def sample_ParseDir_def sampleDir_def fileFilter_def)

lemma sample_candidates:
  "scanCandidates sample_env [\<lparr>Files = [accountFile, userFile]\<rparr>, \<lparr>Files = [testFile]\<rparr>] =
     [(''Account'', accountStruct), (''User'', userStruct), (''Blobs'', blobsStruct)]"
proof -
  have "isDosaEntity sample_env accountStruct"
    by (simp add: sample_defs accountStruct_def)
  moreover have "isDosaEntity sample_env userStruct"
    by (simp add: sample_defs user_defs)
  moreover have "isDosaEntity sample_env blobsStruct"
    by (simp add: sample_defs blobsStruct_def)
  moreover have "\<not> isDosaEntity sample_env pointStruct"
    by (simp add: sample_defs pointStruct_def)
  ultimately show ?thesis
    by (simp add: scanCandidates_def packageCandidates_def fileCandidates_def accountFile_def
        userFile_def testFile_def)
qed

theorem scan_records_every_outcome_witness:
  "ParseDir sample_env ''models'' (fileFilter sample_env '''') =
     ([\<lparr>Files = [accountFile, userFile]\<rparr>, \<lparr>Files = [testFile]\<rparr>], None) \<and>
   scanCandidates sample_env [\<lparr>Files = [accountFile, userFile]\<rparr>, \<lparr>Files = [testFile]\<rparr>] =
     [] @ (''Account'', accountStruct) # [(''User'', userStruct), (''Blobs'', blobsStruct)] \<and>
   tableFromStructType sample_env ''Account'' accountStruct =
     Inl (InvalidColumnType ''Address'' ''Address'') \<and>
   tableFromStructType sample_env ''User'' userStruct = Inr userTable \<and>
   Visit sample_env \<lparr>Entities = [], Warnings = []\<rparr>
     (TypeSpec ''Account'' (StructType accountStruct)) =
     (\<lparr>Entities = [], Warnings = [InvalidColumnType ''Address'' ''Address'']\<rparr>, False) \<and>
   Visit sample_env \<lparr>Entities = [], Warnings = [InvalidColumnType ''Address'' ''Address'']\<rparr>
     (TypeSpec ''User'' (StructType userStruct)) =
     (\<lparr>Entities = [userTable], Warnings = [InvalidColumnType ''Address'' ''Address'']\<rparr>, False) \<and>
   FindEntities sample_env ''models'' '''' =
     ([userTable],
      [InvalidColumnType ''Address'' ''Address'',
       Wrap (Foreign ''missing primary key'') ''failed to parse dosa object''],
      None)"
proof -
  have first: "scanCandidates sample_env
        [\<lparr>Files = [accountFile, userFile]\<rparr>, \<lparr>Files = [testFile]\<rparr>] =
      [] @ (''Account'', accountStruct) # [(''User'', userStruct), (''Blobs'', blobsStruct)]"
    using sample_candidates by simp
  have second: "scanCandidates sample_env
        [\<lparr>Files = [accountFile, userFile]\<rparr>, \<lparr>Files = [testFile]\<rparr>] =
      [(''Account'', accountStruct)] @ (''User'', userStruct) # [(''Blobs'', blobsStruct)]"
    using sample_candidates by simp
  from sample_packages first translate_account translate_user translate_blobs
    scan_records_every_outcome [OF sample_packages first,
      of "InvalidColumnType ''Address'' ''Address''" "\<lparr>Entities = [], Warnings = []\<rparr>" userTable]
    scan_records_every_outcome [OF sample_packages second,
      of "InvalidColumnType ''Address'' ''Address''"
        "\<lparr>Entities = [], Warnings = [InvalidColumnType ''Address'' ''Address'']\<rparr>" userTable]
  show ?thesis by simp
qed

end
